theory Spec2Isabelle
  imports Complex_Main "HOL-Library.Sublist"
begin

section \<open>Python strings\<close>

text \<open>
  A Python \<open>str\<close> is a sequence of Unicode code points. A code point is modelled as a
  natural number and a string as a list of them, so that whitespace beyond Latin-1 is
  covered. \<open>pystr\<close> turns a literal of the theory into such a string.
\<close>

type_synonym codepoint = nat
type_synonym pystr = "codepoint list"

definition pystr :: "string \<Rightarrow> pystr" where
  "pystr s = map of_char s"

text \<open>
  \<open>str.isspace\<close> on one code point, which is what \<open>str.strip()\<close> without argument
  removes: the ASCII whitespace table of CPython (tab to carriage return, the four
  separators \<open>0x1C\<close> to \<open>0x1F\<close>, space) and the Unicode whitespace code points.
\<close>

definition isspace :: "codepoint \<Rightarrow> bool" where
  "isspace c \<longleftrightarrow>
     (9 \<le> c \<and> c \<le> 13) \<or> (28 \<le> c \<and> c \<le> 32) \<or> c = 133 \<or> c = 160 \<or>
     c = 5760 \<or> (8192 \<le> c \<and> c \<le> 8202) \<or> c = 8232 \<or> c = 8233 \<or>
     c = 8239 \<or> c = 8287 \<or> c = 12288"

definition lstrip :: "pystr \<Rightarrow> pystr" where
  "lstrip s = dropWhile isspace s"

definition rstrip :: "pystr \<Rightarrow> pystr" where
  "rstrip s = rev (dropWhile isspace (rev s))"

definition strip :: "pystr \<Rightarrow> pystr" where
  "strip s = rstrip (lstrip s)"

section \<open>The tools of the travel agent\<close>

text \<open>
  \<^verbatim>\<open>
  @tool
  def calculate_total_cost(num_days: int) -> int:
      return 350 * num_days
  \<close>
  Python integers are unbounded.
\<close>

definition calculate_total_cost :: "int \<Rightarrow> int" where
  "calculate_total_cost num_days = 350 * num_days"

text \<open>
  \<^verbatim>\<open>
  @tool("book_trip", args_schema=BookTripInput)
  def book_trip(start_date: str, end_date: str, destination_city: str):
      return f"""Confirmed: The trip you have requested has been booked successfully.
      Start Date: {start_date}
      End Date: {end_date}
      Destination: {destination_city}
      """
  \<close>
  The literal is triple-quoted: each line break is the code point 10 and is followed by
  the four spaces of the indentation, also after the last argument.
\<close>

definition newline_indent :: pystr where
  "newline_indent = 10 # pystr ''    ''"

definition book_trip :: "pystr \<Rightarrow> pystr \<Rightarrow> pystr \<Rightarrow> pystr" where
  "book_trip start_date end_date destination_city =
     pystr ''Confirmed: The trip you have requested has been booked successfully.''
     @ newline_indent @ pystr ''Start Date: '' @ start_date
     @ newline_indent @ pystr ''End Date: '' @ end_date
     @ newline_indent @ pystr ''Destination: '' @ destination_city
     @ newline_indent"

section \<open>The reasoning extractor\<close>

definition opener :: pystr where
  "opener = pystr ''<thinking>''"

definition closer :: pystr where
  "closer = pystr ''</thinking>''"

text \<open>
  \<open>re.search(r'</thinking>(.*)', text, re.DOTALL)\<close>: the pattern is the literal closing
  tag followed by a greedy group that, under \<open>DOTALL\<close>, takes every character up to the
  end of the text. \<open>search\<close> tries the positions of the text from the left and returns
  the first match, so the match starts at the leftmost closing tag and group 1 is the
  rest of the text behind it. The result is group 1 of the match, \<open>None\<close> when no
  position matches.
\<close>

fun re_search :: "pystr \<Rightarrow> pystr option" where
  "re_search [] = None"
| "re_search (c # cs) =
     (if prefix closer (c # cs) then Some (drop (length closer) (c # cs))
      else re_search cs)"

text \<open>
  \<^verbatim>\<open>
  async def extract_after_thinking(text):
      pattern = r'</thinking>(.*)'
      match = re.search(pattern, text, re.DOTALL)
      if match:
          return match.group(1).strip()
      else:
          return text
  \<close>
\<close>

definition extract_after_thinking :: "pystr \<Rightarrow> pystr" where
  "extract_after_thinking text =
     (case re_search text of
        Some group1 \<Rightarrow> strip group1
      | None \<Rightarrow> text)"

section \<open>The model configuration\<close>

text \<open>
  \<^verbatim>\<open>
  llm = ChatBedrockConverse(
      model="us.amazon.nova-lite-v1:0",
      temperature=1,
      top_p=1,
      additional_model_request_fields={
          "inferenceConfig": {
              "topK": 1,
              "stopSequences": ["\n\n<thinking>", "\n<thinking>", " <thinking>"]
          },
      },
  )
  llm_with_tools = llm.bind_tools(tools)
  \<close>
  The configuration is a record of the keyword arguments. Binding tools pairs the
  configuration, unchanged, with the tools; \<open>tools\<close> lists the two tools by name.
\<close>

record chat_config =
  model :: pystr
  temperature :: real
  top_p :: real
  topK :: int
  stopSequences :: "pystr list"

definition llm :: chat_config where
  "llm = \<lparr>model = pystr ''us.amazon.nova-lite-v1:0'',
          temperature = 1,
          top_p = 1,
          topK = 1,
          stopSequences =
            [10 # 10 # pystr ''<thinking>'', 10 # pystr ''<thinking>'', pystr '' <thinking>'']\<rparr>"

definition tools :: "pystr list" where
  "tools = [pystr ''calculate_total_cost'', pystr ''book_trip'']"

definition bind_tools :: "chat_config \<Rightarrow> pystr list \<Rightarrow> chat_config \<times> pystr list" where
  "bind_tools config ts = (config, ts)"

definition llm_with_tools :: "chat_config \<times> pystr list" where
  "llm_with_tools = bind_tools llm tools"

section \<open>The interaction loop\<close>

text \<open>
  The agent executor streams events. An event maps node names to values, and the loop
  reads, of each value, only the list \<open>value["messages"]\<close>; so an event is modelled as
  the list of these message lists, in the order of \<open>event.values()\<close>. Of a message the
  loop reads \<open>response_metadata\<close> (a dictionary), \<open>content\<close> (a string, or a list of
  content blocks) and \<open>tool_calls\<close>.
\<close>

text \<open>
  The exceptions the loop can meet. \<open>IndexError\<close>, \<open>KeyError\<close> and \<open>TypeError\<close> are raised
  by its own lookups. \<open>Raised name\<close> is an exception of the class \<open>name\<close>, a subclass of
  \<open>Exception\<close>, raised by the executor; \<open>Raised_Base name\<close> is one raised by the executor
  that is a \<open>BaseException\<close> and not an \<open>Exception\<close>, as \<open>KeyboardInterrupt\<close>,
  \<open>asyncio.CancelledError\<close> and \<open>SystemExit\<close> are.
\<close>

datatype exc = IndexError | KeyError | TypeError | Raised pystr | Raised_Base pystr


datatype arg = Int_Arg int | Str_Arg pystr

record tool_call =
  call_name :: pystr
  call_args :: "(pystr \<times> arg) list"

datatype block = Text_Block pystr | Dict_Block | Str_Block pystr

datatype content = Str pystr | Blocks "block list"

record message =
  response_metadata :: "pystr \<rightharpoonup> pystr"
  content :: content
  tool_calls :: "tool_call list"

text \<open>
  What the loop prints: \<open>Assistant: ...\<close>, \<open>Tool Calls: ...\<close>, \<open>Tool Messages: ...\<close>
  and \<open>Exception occured: ...\<close>, each with the value it formats.
\<close>

datatype printed =
    Assistant pystr
  | Tool_Calls "tool_call list"
  | Tool_Messages "message list"
  | Exception_occured exc

text \<open>
  \<open>content[0]['text']\<close>: the first element of the content, then its entry \<open>text\<close>.
  An empty content has no first element; a \<open>Text_Block\<close> is a dictionary with the key
  \<open>text\<close>, a \<open>Dict_Block\<close> one without it; a string, or a character of a string, cannot
  be indexed by a string.
\<close>

fun first_text :: "content \<Rightarrow> exc + pystr" where
  "first_text (Str []) = Inl IndexError"
| "first_text (Str (c # cs)) = Inl TypeError"
| "first_text (Blocks []) = Inl IndexError"
| "first_text (Blocks (Text_Block t # bs)) = Inr t"
| "first_text (Blocks (Dict_Block # bs)) = Inl KeyError"
| "first_text (Blocks (Str_Block s # bs)) = Inl TypeError"

text \<open>
  The body of \<open>for value in event.values()\<close>, on \<open>value["messages"]\<close>:
  \<^verbatim>\<open>
  if "stopReason" in value["messages"][-1].response_metadata:
      if value["messages"][-1].response_metadata["stopReason"] == "end_turn":
          ai_response = await extract_after_thinking(value['messages'][-1].content)
          print(f"Assistant: {ai_response}")
      elif value["messages"][-1].response_metadata["stopReason"] == "tool_use":
          ai_response = await extract_after_thinking(value['messages'][-1].content[0]['text'])
          print(f"Assistant: {ai_response}")
          print(f"Tool Calls: {value['messages'][-1].tool_calls}")
  else:
      print(f"Tool Messages: {value['messages']}")
  \<close>
  The result is what was printed and the exception raised, if any. \<open>re.search\<close> raises
  \<open>TypeError\<close> on a content that is a list.
\<close>

definition handle_value :: "message list \<Rightarrow> printed list \<times> exc option" where
  "handle_value messages =
     (if messages = [] then ([], Some IndexError)
      else
        (case response_metadata (last messages) (pystr ''stopReason'') of
           None \<Rightarrow> ([Tool_Messages messages], None)
         | Some stopReason \<Rightarrow>
             if stopReason = pystr ''end_turn'' then
               (case content (last messages) of
                  Str s \<Rightarrow> ([Assistant (extract_after_thinking s)], None)
                | Blocks bs \<Rightarrow> ([], Some TypeError))
             else if stopReason = pystr ''tool_use'' then
               (case first_text (content (last messages)) of
                  Inl e \<Rightarrow> ([], Some e)
                | Inr t \<Rightarrow>
                    ([Assistant (extract_after_thinking t),
                      Tool_Calls (tool_calls (last messages))], None))
             else ([], None)))"






text \<open>
  Messages used as examples below: two responses of the model, the message with which a
  tool answers, one round-trip of a tool call as the executor streams it (the event of
  the model's request, then the event of the tool's answer), and a message with which
  the executor itself closes a turn that has used up its steps; like the answer of a
  tool it carries no stop reason.
\<close>

definition answer_message :: "pystr \<Rightarrow> message" where
  "answer_message stopReason =
     \<lparr>response_metadata = [pystr ''stopReason'' \<mapsto> stopReason],
      content = Str (pystr '' The cost is known.</thinking> Sure, that will be $2800.''),
      tool_calls = []\<rparr>"

definition tool_request :: message where
  "tool_request =
     \<lparr>response_metadata = [pystr ''stopReason'' \<mapsto> pystr ''tool_use''],
      content = Blocks [Text_Block (pystr '' I need the cost.</thinking>''), Dict_Block],
      tool_calls =
        [\<lparr>call_name = pystr ''calculate_total_cost'',
          call_args = [(pystr ''num_days'', Int_Arg 8)]\<rparr>]\<rparr>"




section \<open>Facts about the search and the trimming\<close>

lemma closer_eq: "closer = [60, 47, 116, 104, 105, 110, 107, 105, 110, 103, 62]"
  by (simp add: closer_def pystr_def)

lemma opener_eq: "opener = [60, 116, 104, 105, 110, 107, 105, 110, 103, 62]"
  by (simp add: opener_def pystr_def)

lemma closer_not_Nil: "closer \<noteq> []"
  by (simp add: closer_eq)

lemma re_search_None_iff: "re_search t = None \<longleftrightarrow> \<not> sublist closer t"
  by (induction t) (simp_all add: closer_not_Nil sublist_Cons_right)

lemma re_search_append:
  assumes "\<forall>pre' post'. pre @ closer @ post = pre' @ closer @ post' \<longrightarrow> length pre \<le> length pre'"
  shows "re_search (pre @ closer @ post) = Some post"
  using assms
proof (induction pre)
  case Nil
  obtain c cs where t: "closer @ post = c # cs"
    using closer_not_Nil by (cases "closer @ post") auto
  have "prefix closer (c # cs)" by (metis t prefixI)
  then have "re_search (c # cs) = Some (drop (length closer) (c # cs))" by simp
  then show ?case unfolding t [symmetric] by simp
next
  case (Cons p ps)
  have np: "\<not> prefix closer (p # ps @ closer @ post)"
  proof
    assume "prefix closer (p # ps @ closer @ post)"
    then obtain r where "p # ps @ closer @ post = closer @ r" by (auto simp: prefix_def)
    then have "(p # ps) @ closer @ post = [] @ closer @ r" by simp
    with Cons.prems have "length (p # ps) \<le> length ([]::pystr)" by blast
    then show False by simp
  qed
  have "\<forall>pre' post'. ps @ closer @ post = pre' @ closer @ post' \<longrightarrow> length ps \<le> length pre'"
  proof (intro allI impI)
    fix pre' post' assume "ps @ closer @ post = pre' @ closer @ post'"
    then have "(p # ps) @ closer @ post = (p # pre') @ closer @ post'" by simp
    with Cons.prems have "length (p # ps) \<le> length (p # pre')" by blast
    then show "length ps \<le> length pre'" by simp
  qed
  with Cons.IH have "re_search (ps @ closer @ post) = Some post" by blast
  with np show ?case by simp
qed

lemma re_search_Some:
  "re_search t = Some post \<Longrightarrow>
   \<exists>pre. t = pre @ closer @ post \<and>
     (\<forall>pre' post'. t = pre' @ closer @ post' \<longrightarrow> length pre \<le> length pre')"
proof (induction t)
  case Nil
  then show ?case by simp
next
  case (Cons c cs)
  show ?case
  proof (cases "prefix closer (c # cs)")
    case True
    with Cons.prems have "post = drop (length closer) (c # cs)" by simp
    moreover from True obtain r where "c # cs = closer @ r" by (auto simp: prefix_def)
    ultimately have "c # cs = [] @ closer @ post" by simp
    then show ?thesis by (metis le0 list.size(3))
  next
    case False
    with Cons.prems have "re_search cs = Some post" by simp
    with Cons.IH obtain pre where pre: "cs = pre @ closer @ post"
      and mn: "\<forall>pre' post'. cs = pre' @ closer @ post' \<longrightarrow> length pre \<le> length pre'" by blast
    have "\<forall>pre' post'. c # cs = pre' @ closer @ post' \<longrightarrow> length (c # pre) \<le> length pre'"
    proof (intro allI impI)
      fix pre' post' assume e: "c # cs = pre' @ closer @ post'"
      show "length (c # pre) \<le> length pre'"
      proof (cases pre')
        case Nil
        with e False show ?thesis by (simp add: prefix_def)
      next
        case (Cons q qs)
        with e have "cs = qs @ closer @ post'" by simp
        with mn have "length pre \<le> length qs" by blast
        with Cons show ?thesis by simp
      qed
    qed
    moreover from pre have "c # cs = (c # pre) @ closer @ post" by simp
    ultimately show ?thesis by blast
  qed
qed

lemma first_closerI:
  assumes "re_search (pre @ closer @ post) = Some post"
  shows "\<forall>pre' post'. pre @ closer @ post = pre' @ closer @ post' \<longrightarrow> length pre \<le> length pre'"
proof -
  from re_search_Some [OF assms] obtain p where p: "pre @ closer @ post = p @ closer @ post"
    and mn: "\<forall>pre' post'. pre @ closer @ post = pre' @ closer @ post' \<longrightarrow> length p \<le> length pre'"
    by blast
  from p have "length (pre @ closer @ post) = length (p @ closer @ post)" by simp
  then have "length pre = length p" by simp
  with mn show ?thesis by simp
qed

lemma rstrip_split: "u = rstrip u @ rev (takeWhile isspace (rev u))"
proof -
  have "rev (takeWhile isspace (rev u) @ dropWhile isspace (rev u)) = u"
    by (simp only: takeWhile_dropWhile_id rev_rev_ident)
  then show ?thesis by (simp only: rev_append rstrip_def)
qed

lemma lstrip_split:
  "dropWhile isspace s = strip s @ rev (takeWhile isspace (rev (dropWhile isspace s)))"
  using rstrip_split [of "dropWhile isspace s"] by (simp only: strip_def lstrip_def)

lemma strip_decomp:
  "\<exists>l r. s = l @ strip s @ r \<and> (\<forall>c\<in>set l. isspace c) \<and> (\<forall>c\<in>set r. isspace c)"
proof -
  let ?u = "dropWhile isspace s"
  let ?l = "takeWhile isspace s"
  let ?r = "rev (takeWhile isspace (rev ?u))"
  have "?u = strip s @ ?r" by (rule lstrip_split)
  then have "s = ?l @ strip s @ ?r" by (metis takeWhile_dropWhile_id)
  moreover have "\<forall>c\<in>set ?l. isspace c" by (auto dest: set_takeWhileD)
  moreover have "\<forall>c\<in>set ?r. isspace c" by (auto dest: set_takeWhileD)
  ultimately show ?thesis by blast
qed

lemma strip_ends:
  assumes "strip s \<noteq> []"
  shows "\<not> isspace (hd (strip s)) \<and> \<not> isspace (last (strip s))"
proof -
  let ?u = "dropWhile isspace s"
  let ?v = "dropWhile isspace (rev ?u)"
  have s: "strip s = rev ?v" by (simp add: strip_def rstrip_def lstrip_def)
  with assms have v: "?v \<noteq> []" by simp
  then have "\<not> isspace (hd ?v)" by (rule hd_dropWhile)
  with v s have l: "\<not> isspace (last (strip s))" by (simp add: last_rev)
  from v have "rev ?u \<noteq> []" by (metis dropWhile.simps(1))
  then have u: "?u \<noteq> []" by simp
  then have hu: "\<not> isspace (hd ?u)" by (rule hd_dropWhile)
  have "?u = strip s @ rev (takeWhile isspace (rev ?u))" by (rule lstrip_split)
  with assms have "hd ?u = hd (strip s)" by (metis hd_append2)
  with hu l show ?thesis by simp
qed

lemma sublist_strip: "sublist (strip s) s"
  using strip_decomp [of s] by (auto simp: sublist_def)

lemma length_strip: "length (strip s) \<le> length s"
  using sublist_strip by (rule sublist_length_le)

lemma extract_no_closer: "\<not> sublist closer text \<Longrightarrow> extract_after_thinking text = text"
  by (simp add: extract_after_thinking_def re_search_None_iff [symmetric])

lemma extract_first_closer:
  assumes "text = pre @ closer @ post"
    and "\<forall>pre' post'. text = pre' @ closer @ post' \<longrightarrow> length pre \<le> length pre'"
  shows "extract_after_thinking text = strip post"
  using assms re_search_append [of pre post] by (simp add: extract_after_thinking_def)

lemmas eval_pystr = pystr_def closer_eq opener_eq
lemmas eval_strip = strip_def lstrip_def rstrip_def isspace_def
lemmas eval_extract = extract_after_thinking_def eval_pystr eval_strip

section \<open>The reasoning extractor: claims\<close>

text \<open>C1: when the text contains the closing tag, the extractor returns what follows the
  first closing tag, trimmed: the result is \<open>strip\<close> of that rest, the rest is the result
  between two runs of whitespace, and the result neither starts nor ends with whitespace.\<close>

theorem extract_after_first_closer:
  assumes "text = pre @ closer @ post"
    and "\<forall>pre' post'. text = pre' @ closer @ post' \<longrightarrow> length pre \<le> length pre'"
  shows "extract_after_thinking text = strip post \<and>
    (\<exists>l r. post = l @ extract_after_thinking text @ r \<and>
       (\<forall>c\<in>set l. isspace c) \<and> (\<forall>c\<in>set r. isspace c)) \<and>
    (extract_after_thinking text \<noteq> [] \<longrightarrow>
       \<not> isspace (hd (extract_after_thinking text)) \<and>
       \<not> isspace (last (extract_after_thinking text)))"
proof -
  have e: "extract_after_thinking text = strip post"
    using assms by (rule extract_first_closer)
  show ?thesis unfolding e using strip_decomp [of post] strip_ends [of post] by blast
qed

theorem extract_after_first_closer_witness:
  "pystr ''plan </thinking>  A thought ends with </thinking>. '' =
     pystr ''plan '' @ closer @ pystr ''  A thought ends with </thinking>. '' \<and>
   extract_after_thinking (pystr ''plan </thinking>  A thought ends with </thinking>. '') =
     pystr ''A thought ends with </thinking>.''"
proof -
  let ?pre = "pystr ''plan ''" and ?post = "pystr ''  A thought ends with </thinking>. ''"
  let ?text = "pystr ''plan </thinking>  A thought ends with </thinking>. ''"
  have t: "?text = ?pre @ closer @ ?post" by (simp add: eval_pystr)
  have "re_search (?pre @ closer @ ?post) = Some ?post" by (simp add: eval_pystr)
  then have f: "\<forall>pre' post'. ?text = pre' @ closer @ post' \<longrightarrow> length ?pre \<le> length pre'"
    unfolding t by (rule first_closerI)
  have s: "strip ?post = pystr ''A thought ends with </thinking>.''"
    by (simp add: eval_pystr eval_strip)
  from extract_after_first_closer [OF t f] s t show ?thesis by simp
qed

text \<open>C6: a text without the closing tag is returned as it is, whitespace included.\<close>

theorem extract_without_closer:
  "\<not> sublist closer text \<Longrightarrow> extract_after_thinking text = text"
  by (rule extract_no_closer)

theorem extract_without_closer_witness:
  "\<not> sublist closer (pystr '' I need the dates. '') \<and>
   extract_after_thinking (pystr '' I need the dates. '') = pystr '' I need the dates. ''"
proof -
  have h: "\<not> sublist closer (pystr '' I need the dates. '')"
    by (simp add: eval_pystr sublist_Cons_right)
  from extract_without_closer [OF h] h show ?thesis by simp
qed

text \<open>C2: the extractor looks for \<open></thinking>\<close>, so the text written with \<open><think>\<close> and
  \<open></think>\<close> has no closing tag and comes back whole.\<close>

theorem think_tags_counterexample:
  "extract_after_thinking (pystr ''<think>plan...</think>Sure, that will be $2800.'')
     \<noteq> pystr ''Sure, that will be $2800.''"
  by (simp add: eval_extract)

text \<open>C2, as the code has it: with the tags \<open><thinking>\<close> and \<open></thinking>\<close> the scenario yields
  exactly the answer; with \<open><think>\<close> and \<open></think>\<close> the whole raw text is returned.\<close>

theorem thinking_tags_scenario:
  "extract_after_thinking (pystr ''<thinking>plan...</thinking>Sure, that will be $2800.'')
     = pystr ''Sure, that will be $2800.'' \<and>
   extract_after_thinking (pystr ''<think>plan...</think>Sure, that will be $2800.'')
     = pystr ''<think>plan...</think>Sure, that will be $2800.''"
  by (simp add: eval_extract)

text \<open>C4: an answer that itself contains a closing tag is cut again by a second
  extraction.\<close>

theorem extract_twice_counterexample:
  "extract_after_thinking (extract_after_thinking
      (pystr ''plan</thinking>Write </thinking> to end a thought.''))
   \<noteq> extract_after_thinking (pystr ''plan</thinking>Write </thinking> to end a thought.'')"
  by (simp add: eval_extract)

text \<open>C4, as the code has it: extracting twice gives the same as extracting once exactly when the
  first visible answer contains no closing tag.\<close>

theorem extract_twice_iff:
  "extract_after_thinking (extract_after_thinking text) = extract_after_thinking text
     \<longleftrightarrow> \<not> sublist closer (extract_after_thinking text)"
proof
  assume eq: "extract_after_thinking (extract_after_thinking text) = extract_after_thinking text"
  show "\<not> sublist closer (extract_after_thinking text)"
  proof
    let ?v = "extract_after_thinking text"
    assume "sublist closer ?v"
    then obtain post where p: "re_search ?v = Some post"
      using re_search_None_iff [of ?v] by auto
    from re_search_Some [OF p] obtain pre where v: "?v = pre @ closer @ post" by blast
    from p have "extract_after_thinking ?v = strip post"
      by (simp add: extract_after_thinking_def)
    then have "length (extract_after_thinking ?v) \<le> length post"
      by (simp add: length_strip)
    also have "length post < length (pre @ closer @ post)"
      using closer_not_Nil by simp
    finally show False using eq v by simp
  qed
next
  assume "\<not> sublist closer (extract_after_thinking text)"
  then show "extract_after_thinking (extract_after_thinking text) = extract_after_thinking text"
    by (rule extract_no_closer)
qed

theorem extract_twice_iff_witness:
  "\<not> sublist closer (extract_after_thinking (pystr ''plan </thinking> Sure.'')) \<and>
   extract_after_thinking (extract_after_thinking (pystr ''plan </thinking> Sure.''))
     = extract_after_thinking (pystr ''plan </thinking> Sure.'')"
proof -
  have h: "\<not> sublist closer (extract_after_thinking (pystr ''plan </thinking> Sure.''))"
    by (simp add: eval_extract sublist_Cons_right)
  from h extract_twice_iff [of "pystr ''plan </thinking> Sure.''"] show ?thesis by blast
qed

text \<open>C5: an opening tag behind the first closing tag stays in the visible text.\<close>

theorem visible_marker_counterexample:
  "sublist opener (extract_after_thinking (pystr ''plan</thinking>Sure.<thinking>''))"
  by (simp add: eval_extract sublist_Cons_right)

text \<open>C5, as the code has it: let \<open>tail\<close> be the part of the raw text behind its first closing tag,
  or the whole raw text when it has no closing tag. If \<open>tail\<close> contains neither the
  opening nor the closing tag, neither does the visible text.\<close>

theorem visible_marker_free:
  assumes "(\<not> sublist closer text \<and> tail = text) \<or>
     (\<exists>pre. text = pre @ closer @ tail \<and>
        (\<forall>pre' post'. text = pre' @ closer @ post' \<longrightarrow> length pre \<le> length pre'))"
    and "\<not> sublist opener tail" and "\<not> sublist closer tail"
  shows "\<not> sublist opener (extract_after_thinking text) \<and>
         \<not> sublist closer (extract_after_thinking text)"
proof -
  have "sublist (extract_after_thinking text) tail"
    using assms(1) extract_no_closer [of "text"] extract_first_closer [of "text" _ tail]
      sublist_strip [of tail] by auto
  with assms(2,3) show ?thesis by (blast intro: sublist_order.order_trans)
qed

theorem visible_marker_free_witness:
  "(\<exists>pre. pystr ''plan </thinking> Sure.'' = pre @ closer @ pystr '' Sure.'' \<and>
      (\<forall>pre' post'. pystr ''plan </thinking> Sure.'' = pre' @ closer @ post'
         \<longrightarrow> length pre \<le> length pre')) \<and>
   \<not> sublist opener (pystr '' Sure.'') \<and> \<not> sublist closer (pystr '' Sure.'') \<and>
   \<not> sublist opener (extract_after_thinking (pystr ''plan </thinking> Sure.'')) \<and>
   \<not> sublist closer (extract_after_thinking (pystr ''plan </thinking> Sure.''))"
proof -
  let ?pre = "pystr ''plan ''" and ?post = "pystr '' Sure.''"
  let ?text = "pystr ''plan </thinking> Sure.''"
  have t: "?text = ?pre @ closer @ ?post" by (simp add: eval_pystr)
  have "re_search (?pre @ closer @ ?post) = Some ?post" by (simp add: eval_pystr)
  then have "\<forall>pre' post'. ?text = pre' @ closer @ post' \<longrightarrow> length ?pre \<le> length pre'"
    unfolding t by (rule first_closerI)
  with t have f: "\<exists>pre. ?text = pre @ closer @ ?post \<and>
      (\<forall>pre' post'. ?text = pre' @ closer @ post' \<longrightarrow> length pre \<le> length pre')"
    by blast
  have o: "\<not> sublist opener ?post" by (simp add: eval_pystr sublist_Cons_right)
  have c: "\<not> sublist closer ?post" by (simp add: eval_pystr sublist_Cons_right)
  from visible_marker_free [OF disjI2, OF f o c] f o c show ?thesis by blast
qed

section \<open>The interaction loop: claims\<close>

lemma stop_reason_eval:
  "pystr ''stop_sequence'' \<noteq> pystr ''end_turn''" "pystr ''stop_sequence'' \<noteq> pystr ''tool_use''"
  "pystr ''tool_use'' \<noteq> pystr ''end_turn''"
  by (simp_all add: pystr_def)








text \<open>C7: the loop has a branch for \<open>end_turn\<close> and one for \<open>tool_use\<close> and no other.
  The same response is extracted and printed under \<open>end_turn\<close>, and passed over in silence
  under \<open>stop_sequence\<close>, the stop reason of a generation cut by a stop sequence.\<close>

theorem stop_sequence_counterexample:
  "handle_value [answer_message (pystr ''stop_sequence'')]
     \<noteq> handle_value [answer_message (pystr ''end_turn'')]"
  by (simp add: handle_value_def answer_message_def stop_reason_eval)

text \<open>C7, as the loop has it: a response with stop reason \<open>end_turn\<close> and a string as
  content is run through the extractor and the extracted text is printed as the
  assistant's answer; under every stop reason other than \<open>end_turn\<close> and \<open>tool_use\<close>,
  whatever the content of the response, nothing is extracted, nothing is printed and
  nothing is raised.\<close>

theorem stop_reason_branches:
  assumes "messages \<noteq> []"
    and "response_metadata (last messages) (pystr ''stopReason'') = Some stopReason"
  shows "(stopReason = pystr ''end_turn'' \<and> content (last messages) = Str s \<longrightarrow>
            handle_value messages = ([Assistant (extract_after_thinking s)], None)) \<and>
         (stopReason \<noteq> pystr ''end_turn'' \<and> stopReason \<noteq> pystr ''tool_use'' \<longrightarrow>
            handle_value messages = ([], None))"
  using assms by (simp add: handle_value_def stop_reason_eval)

theorem stop_reason_branches_witness:
  "handle_value [answer_message (pystr ''end_turn'')] =
     ([Assistant (pystr ''Sure, that will be $2800.'')], None) \<and>
   handle_value [answer_message (pystr ''stop_sequence'')] = ([], None) \<and>
   handle_value
     [tool_request\<lparr>response_metadata := [pystr ''stopReason'' \<mapsto> pystr ''stop_sequence'']\<rparr>]
     = ([], None)"
proof -
  let ?s = "pystr '' The cost is known.</thinking> Sure, that will be $2800.''"
  let ?m = "tool_request\<lparr>response_metadata := [pystr ''stopReason'' \<mapsto> pystr ''stop_sequence'']\<rparr>"
  have e: "extract_after_thinking ?s = pystr ''Sure, that will be $2800.''"
    by (simp add: eval_extract)
  have a: "[m] \<noteq> []" for m :: message by simp
  have b: "response_metadata (last [answer_message r]) (pystr ''stopReason'') = Some r" for r
    by (simp add: answer_message_def)
  have c: "content (answer_message r) = Str ?s" for r
    by (simp add: answer_message_def)
  have d: "response_metadata (last [?m]) (pystr ''stopReason'') = Some (pystr ''stop_sequence'')"
    by simp
  from stop_reason_branches [OF a b, of "pystr ''end_turn''" ?s]
    stop_reason_branches [OF a b, of "pystr ''stop_sequence''"]
    stop_reason_branches [OF a d]
  show ?thesis by (simp add: c e stop_reason_eval)
qed




section \<open>The model configuration: claims\<close>

text \<open>C8: with the two tools bound, temperature and top-p are both 1. The Converse
  interface takes both from the range 0 to 1, so they are not the least values: 0 lies
  below them.\<close>

theorem temperature_counterexample:
  "snd llm_with_tools \<noteq> [] \<and>
   \<not> (\<forall>t\<in>{0..1}. temperature (fst llm_with_tools) \<le> t) \<and>
   \<not> (\<forall>p\<in>{0..1}. top_p (fst llm_with_tools) \<le> p)"
proof -
  have "(0::real) \<in> {0..1}" by simp
  moreover have "\<not> temperature (fst llm_with_tools) \<le> 0" "\<not> top_p (fst llm_with_tools) \<le> 0"
    by (simp_all add: llm_with_tools_def bind_tools_def llm_def)
  moreover have "snd llm_with_tools \<noteq> []"
    by (simp add: llm_with_tools_def bind_tools_def tools_def)
  ultimately show ?thesis by blast
qed

text \<open>C8, as the configuration has it: with or without tools bound the configuration is
  the same; temperature, top-p and top-k are all 1, and every stop sequence ends with the
  opening tag \<open><thinking>\<close>.\<close>

theorem llm_configuration:
  "snd llm_with_tools \<noteq> [] \<and>
   fst llm_with_tools = llm \<and>
   temperature (fst llm_with_tools) = 1 \<and>
   top_p (fst llm_with_tools) = 1 \<and>
   topK (fst llm_with_tools) = 1 \<and>
   (\<forall>s\<in>set (stopSequences (fst llm_with_tools)). suffix opener s)"
  by (simp add: llm_with_tools_def bind_tools_def tools_def llm_def opener_def pystr_def suffix_to_prefix)

theorem llm_configuration_witness:
  "pystr '' <thinking>'' \<in> set (stopSequences (fst llm_with_tools)) \<and>
   suffix opener (pystr '' <thinking>'')"
proof -
  have m: "pystr '' <thinking>'' \<in> set (stopSequences (fst llm_with_tools))"
    by (simp add: llm_with_tools_def bind_tools_def llm_def)
  from llm_configuration have "\<forall>s\<in>set (stopSequences (fst llm_with_tools)). suffix opener s"
    by (elim conjE)
  from this m have "suffix opener (pystr '' <thinking>'')" by (rule bspec)
  with m show ?thesis by (rule conjI)
qed

section \<open>The tools: claims\<close>

text \<open>C10: for all three argument strings \<open>book_trip\<close> returns a string that starts with
  \<open>Confirmed:\<close> and contains each argument as it was given; no argument is checked.\<close>

theorem book_trip_confirmed:
  "prefix (pystr ''Confirmed:'') (book_trip start_date end_date destination_city) \<and>
   sublist start_date (book_trip start_date end_date destination_city) \<and>
   sublist end_date (book_trip start_date end_date destination_city) \<and>
   sublist destination_city (book_trip start_date end_date destination_city)"
proof (intro conjI)
  show "prefix (pystr ''Confirmed:'') (book_trip start_date end_date destination_city)"
    by (simp add: book_trip_def pystr_def)
  show "sublist start_date (book_trip start_date end_date destination_city)"
    unfolding book_trip_def by (metis append.assoc sublist_appendI)
  show "sublist end_date (book_trip start_date end_date destination_city)"
    unfolding book_trip_def by (metis append.assoc sublist_appendI)
  show "sublist destination_city (book_trip start_date end_date destination_city)"
    unfolding book_trip_def by (metis append.assoc sublist_appendI)
qed

text \<open>C3: for every integer number of days the cost tool returns 350 times that number;
  for 8 days it returns 2800.\<close>

theorem calculate_total_cost_350:
  "calculate_total_cost num_days = 350 * num_days \<and> calculate_total_cost 8 = 2800"
  by (simp add: calculate_total_cost_def)

end
